theory Spec2Isabelle
  imports Complex_Main
begin

section \<open>Values handled by the recipe viewer\<close>

text \<open>
  The program of \<^verbatim>\<open>src/index.tsx\<close> is a set of event handlers over module-level
  variables and a handful of DOM elements. The handlers are embedded as functions on a
  record of that state. A \<^typ>\<open>string\<close> is a sequence of code units; a \<^typ>\<open>char\<close>
  stands for a code unit below 256.
\<close>

text \<open>
  What \<^verbatim>\<open>JSON.parse\<close> returns (line 137). A number carries the value of the parsed
  double; an overflowing literal behaves as a positive number in every test made below.
  In an object the last binding of a key is the one that counts.
\<close>

datatype json =
    JNull
  | JBool bool
  | JNumber rat
  | JString string
  | JArray "json list"
  | JObject "(string \<times> json) list"

text \<open>A JavaScript value read from parsed data: \<open>None\<close> is \<^verbatim>\<open>undefined\<close>.\<close>

type_synonym jsval = "json option"

text \<open>The value of an index expression on the steps: a string, or \<^verbatim>\<open>undefined\<close>.\<close>

type_synonym step = "string option"

text \<open>What a \<^verbatim>\<open>throw\<close> or a rejected promise carries: an \<^verbatim>\<open>Error\<close> with its message, or any other value.\<close>

datatype thrown = ErrorObject string | NonError

text \<open>
  How the awaited part of \<^verbatim>\<open>getRecipe\<close> (lines 115 to 137) ends: the request, the
  \<^verbatim>\<open>.trim()\<close> on the response text or \<^verbatim>\<open>JSON.parse\<close> throws, or
  \<^verbatim>\<open>JSON.parse\<close> returns a value.
\<close>

datatype completion = Throws thrown | Parsed json

datatype view = Input | Recipe | Loading | Error

text \<open>
  The children of the error element: the text set by \<^verbatim>\<open>textContent\<close>, the paragraph and
  the button of lines 62 to 73. The button's \<^verbatim>\<open>onclick\<close> is always the closure of lines
  64 to 67, embedded as \<open>backButton_onclick\<close>.
\<close>

datatype node = TextNode string | Paragraph string | Button string

record utterance =
  utterance_text :: step
  utterance_lang :: string

datatype speech_call = CancelCall | SpeakCall utterance

datatype console_entry = Warn string | ErrorEntry string thrown

record app_state =
  inputView_hidden :: bool
  recipeView_hidden :: bool
  loadingSpinner_hidden :: bool
  errorMessageDiv_hidden :: bool
  errorMessageDiv_children :: "node list"
  dishInput_value :: string
  recipeStepText_textContent :: step
  prevStepBtn_disabled :: bool
  nextStepBtn_disabled :: bool
  recipeSteps :: "string list"
  currentStepIndex :: int
  speechSynthesis_in_window :: bool
  speechQueue :: "utterance list"
  speechCalls :: "speech_call list"
  console :: "console_entry list"
  requests :: "string list"

text \<open>
  \<open>recipeSteps\<close> is a list of strings, as its declaration \<^verbatim>\<open>string[]\<close> says.
  \<open>recipeStepText_textContent\<close> and the text of an utterance hold the value that was assigned
  or passed. \<open>speechQueue\<close> holds the utterances handed to the platform and not cancelled
  since; \<open>speechCalls\<close> is the trace of calls made on \<^verbatim>\<open>speechSynthesis\<close>;
  \<open>requests\<close> is the trace of prompts sent to the content service. For each element,
  \<open>_hidden\<close> tells whether its class list contains \<^verbatim>\<open>hidden\<close>.
\<close>

section \<open>JavaScript operators used by the guard of line 139\<close>

fun truthy :: "json \<Rightarrow> bool" where
  "truthy JNull = False"
| "truthy (JBool b) = b"
| "truthy (JNumber n) = (n \<noteq> 0)"
| "truthy (JString s) = (s \<noteq> [])"
| "truthy (JArray xs) = True"
| "truthy (JObject kvs) = True"

definition own_property :: "(string \<times> json) list \<Rightarrow> string \<Rightarrow> jsval" where
  "own_property kvs k = map_of (rev kvs) k"

text \<open>\<^verbatim>\<open>recipeData.steps\<close> for a truthy value: only an object can have the property.\<close>

fun steps_of :: "json \<Rightarrow> jsval" where
  "steps_of (JObject kvs) = own_property kvs ''steps''"
| "steps_of v = None"

text \<open>
  The verdict of \<^verbatim>\<open>recipeData.steps.length > 0\<close> on a truthy \<^verbatim>\<open>steps\<close>, with the
  list \<^verbatim>\<open>recipeSteps\<close> then is. An array has its length and its elements; a string
  has its length and is indexed by one-unit strings; a number or \<^verbatim>\<open>true\<close> has no length,
  and \<^verbatim>\<open>undefined > 0\<close> is false. A plain object has the length its own property
  \<^verbatim>\<open>length\<close> gives: absent, \<^verbatim>\<open>null\<close>, \<^verbatim>\<open>false\<close> or a number that is not positive
  make the test false.

  Line 140 stores the value unchecked in a variable declared \<^verbatim>\<open>string[]\<close>. The verdict is
  \<open>Unmodelled\<close> where the test passes, or may pass, on a value that is not a list of
  strings: an array with an element that is not a string (showing it goes through
  \<^verbatim>\<open>ToString\<close>, which can throw), and an object whose own \<^verbatim>\<open>length\<close> is or may
  convert to a positive number.
\<close>

datatype verdict = Accepted "string list" | Refused | Unmodelled

fun strings_of :: "json list \<Rightarrow> string list option" where
  "strings_of [] = Some []"
| "strings_of (JString s # vs) =
     (case strings_of vs of None \<Rightarrow> None | Some ss \<Rightarrow> Some (s # ss))"
| "strings_of (v # vs) = None"

fun length_positive :: "json \<Rightarrow> verdict" where
  "length_positive (JArray xs) =
     (if int (length xs) > 0
      then (case strings_of xs of None \<Rightarrow> Unmodelled | Some ss \<Rightarrow> Accepted ss)
      else Refused)"
| "length_positive (JString s) =
     (if int (length s) > 0 then Accepted (map (\<lambda>c. [c]) s) else Refused)"
| "length_positive (JObject kvs) =
     (case own_property kvs ''length'' of
        None \<Rightarrow> Refused
      | Some JNull \<Rightarrow> Refused
      | Some (JBool b) \<Rightarrow> (if b then Unmodelled else Refused)
      | Some (JNumber n) \<Rightarrow> (if n > 0 then Unmodelled else Refused)
      | Some (JString s) \<Rightarrow> Unmodelled
      | Some (JArray ys) \<Rightarrow> Unmodelled
      | Some (JObject ps) \<Rightarrow> Unmodelled)"
| "length_positive v = Refused"

text \<open>
  The whole condition \<^verbatim>\<open>recipeData && recipeData.steps && recipeData.steps.length > 0\<close>,
  evaluated left to right with short circuit.
\<close>

definition guard :: "json \<Rightarrow> verdict" where
  "guard recipeData =
     (if truthy recipeData then
        (case steps_of recipeData of
           None \<Rightarrow> Refused
         | Some steps \<Rightarrow> (if truthy steps then length_positive steps else Refused))
      else Refused)"

text \<open>\<^verbatim>\<open>xs[i]\<close>: \<^verbatim>\<open>undefined\<close> out of range.\<close>

definition js_index :: "string list \<Rightarrow> int \<Rightarrow> step" where
  "js_index xs i = (if 0 \<le> i \<and> i < int (length xs) then Some (xs ! nat i) else None)"

text \<open>
  \<^verbatim>\<open>String.prototype.trim\<close> on code units below 256: tab, line feed, vertical tab, form
  feed, carriage return, space and no-break space are removed at both ends.
\<close>

definition is_white_space :: "char \<Rightarrow> bool" where
  "is_white_space c = (of_char c \<in> {9, 10, 11, 12, 13, 32, 160 :: nat})"

definition trim :: "string \<Rightarrow> string" where
  "trim s = rev (dropWhile is_white_space (rev (dropWhile is_white_space s)))"

section \<open>The view controller\<close>

definition showView :: "view \<Rightarrow> app_state \<Rightarrow> app_state" where
  "showView viewName s =
     (let s1 = s\<lparr>inputView_hidden := True\<rparr>;
          s2 = s1\<lparr>recipeView_hidden := True\<rparr>;
          s3 = s2\<lparr>loadingSpinner_hidden := True\<rparr>;
          s4 = s3\<lparr>errorMessageDiv_hidden := True\<rparr>
      in case viewName of
           Input \<Rightarrow> s4\<lparr>inputView_hidden := False\<rparr>
         | Recipe \<Rightarrow> s4\<lparr>recipeView_hidden := False\<rparr>
         | Loading \<Rightarrow> s4\<lparr>loadingSpinner_hidden := False\<rparr>
         | Error \<Rightarrow> s4\<lparr>errorMessageDiv_hidden := False\<rparr>)"

fun visible :: "view \<Rightarrow> app_state \<Rightarrow> bool" where
  "visible Input s = (\<not> inputView_hidden s)"
| "visible Recipe s = (\<not> recipeView_hidden s)"
| "visible Loading s = (\<not> loadingSpinner_hidden s)"
| "visible Error s = (\<not> errorMessageDiv_hidden s)"

definition visible_views :: "app_state \<Rightarrow> view list" where
  "visible_views s = filter (\<lambda>v. visible v s) [Input, Recipe, Loading, Error]"

text \<open>The handler given to the button at lines 64 to 67.\<close>

definition backButton_onclick :: "app_state \<Rightarrow> app_state" where
  "backButton_onclick s = (showView Input s)\<lparr>errorMessageDiv_children := []\<rparr>"

definition showError :: "string \<Rightarrow> app_state \<Rightarrow> app_state" where
  "showError message s =
     (let s1 = s\<lparr>errorMessageDiv_children :=
                   [TextNode (''Oops! Something went wrong. '' @ message @ ''. Please try again.'')]\<rparr>;
          s2 = showView Error s1;
          backButton = Button ''Try Again'';
          s3 = s2\<lparr>errorMessageDiv_children := []\<rparr>;
          errorText = Paragraph (''Oops! Something went wrong: '' @ message @ ''.'');
          s4 = s3\<lparr>errorMessageDiv_children := errorMessageDiv_children s3 @ [errorText]\<rparr>
      in s4\<lparr>errorMessageDiv_children := errorMessageDiv_children s4 @ [backButton]\<rparr>)"

section \<open>Speech and the step display\<close>

definition speak :: "step \<Rightarrow> app_state \<Rightarrow> app_state" where
  "speak txt s =
     (if speechSynthesis_in_window s then
        (let s1 = s\<lparr>speechQueue := [], speechCalls := speechCalls s @ [CancelCall]\<rparr>;
             u = \<lparr>utterance_text = txt, utterance_lang = ''en-US''\<rparr>
         in s1\<lparr>speechQueue := speechQueue s1 @ [u],
                speechCalls := speechCalls s1 @ [SpeakCall u]\<rparr>)
      else s\<lparr>console := console s @ [Warn ''Speech Synthesis not supported in this browser.'']\<rparr>)"

definition updateRecipeStepUI :: "app_state \<Rightarrow> app_state" where
  "updateRecipeStepUI s =
     (if int (length (recipeSteps s)) = 0 then s
      else
        (let currentStep = js_index (recipeSteps s) (currentStepIndex s);
             s1 = s\<lparr>recipeStepText_textContent := currentStep\<rparr>;
             s2 = s1\<lparr>prevStepBtn_disabled := (currentStepIndex s1 = 0)\<rparr>;
             s3 = s2\<lparr>nextStepBtn_disabled :=
                       (currentStepIndex s2 = int (length (recipeSteps s2)) - 1)\<rparr>
         in speak currentStep s3))"

section \<open>Fetching a recipe\<close>

text \<open>
  \<^verbatim>\<open>getRecipe\<close> is asynchronous. \<open>getRecipe_start\<close> is what runs before the
  \<^verbatim>\<open>await\<close>: the loading view and the request. \<open>getRecipe_resume\<close> is what runs when
  the awaited request has ended, on the state of that moment. It has no result where the
  guard's verdict is \<open>Unmodelled\<close>.
\<close>

definition prompt :: "string \<Rightarrow> string" where
  "prompt dishName =
     ''Generate a simple, step-by-step recipe for '' @ dishName @ ''. Provide only the instructions.''"

definition getRecipe_start :: "string \<Rightarrow> app_state \<Rightarrow> app_state" where
  "getRecipe_start dishName s =
     (let s1 = showView Loading s in s1\<lparr>requests := requests s1 @ [prompt dishName]\<rparr>)"

definition message_of :: "thrown \<Rightarrow> string" where
  "message_of e = (case e of ErrorObject m \<Rightarrow> m | NonError \<Rightarrow> ''An unknown error occurred'')"

definition catch_block :: "thrown \<Rightarrow> app_state \<Rightarrow> app_state" where
  "catch_block e s =
     showError (message_of e) (s\<lparr>console := console s @ [ErrorEntry ''Error fetching recipe:'' e]\<rparr>)"

definition getRecipe_resume :: "completion \<Rightarrow> app_state \<Rightarrow> app_state option" where
  "getRecipe_resume c s =
     (case c of
        Throws e \<Rightarrow> Some (catch_block e s)
      | Parsed recipeData \<Rightarrow>
          (case guard recipeData of
             Accepted steps \<Rightarrow>
               Some (showView Recipe
                 (updateRecipeStepUI (s\<lparr>recipeSteps := steps, currentStepIndex := 0\<rparr>)))
           | Refused \<Rightarrow>
               Some (catch_block (ErrorObject ''Could not find a recipe for that dish.'') s)
           | Unmodelled \<Rightarrow> None))"

section \<open>Event handlers\<close>

text \<open>
  \<^verbatim>\<open>event.preventDefault()\<close> keeps the browser from navigating and changes nothing of
  the state. A non-empty string is truthy.
\<close>

definition handleFormSubmit :: "app_state \<Rightarrow> app_state" where
  "handleFormSubmit s =
     (let dishName = trim (dishInput_value s)
      in if dishName \<noteq> [] then getRecipe_start dishName s else s)"

definition handleNextStep :: "app_state \<Rightarrow> app_state" where
  "handleNextStep s =
     (if currentStepIndex s < int (length (recipeSteps s)) - 1
      then updateRecipeStepUI (s\<lparr>currentStepIndex := currentStepIndex s + 1\<rparr>)
      else s)"

definition handlePrevStep :: "app_state \<Rightarrow> app_state" where
  "handlePrevStep s =
     (if currentStepIndex s > 0
      then updateRecipeStepUI (s\<lparr>currentStepIndex := currentStepIndex s - 1\<rparr>)
      else s)"

definition handleRepeatStep :: "app_state \<Rightarrow> app_state" where
  "handleRepeatStep s = updateRecipeStepUI s"

text \<open>
  Line 187 names \<^verbatim>\<open>speechSynthesis\<close> without the test that \<^verbatim>\<open>speak\<close> makes: where
  the global is absent the reference throws, and the handler ends there, its first three
  assignments done. The result is the exception, if any, and the state left behind.
\<close>

definition handleStartOver :: "app_state \<Rightarrow> thrown option \<times> app_state" where
  "handleStartOver s =
     (let s1 = s\<lparr>recipeSteps := []\<rparr>;
          s2 = s1\<lparr>currentStepIndex := 0\<rparr>;
          s3 = s2\<lparr>dishInput_value := []\<rparr>
      in if speechSynthesis_in_window s3 then
           (let s4 = s3\<lparr>speechQueue := [], speechCalls := speechCalls s3 @ [CancelCall]\<rparr>
            in (None, showView Input s4))
         else (Some (ErrorObject ''speechSynthesis is not defined''), s3))"

section \<open>Events and runs\<close>

text \<open>
  The listeners registered at lines 201 to 205, the button created by \<open>showError\<close> and the
  end of an awaited request. A click on the button of the error element is possible only
  while the element holds that button. An exception that leaves a handler is reported by
  the browser and the page goes on with the state the handler left.
\<close>

datatype event =
    Submit
  | Complete completion
  | NextClick
  | PrevClick
  | RepeatClick
  | StartOverClick
  | TryAgainClick

fun fire :: "event \<Rightarrow> app_state \<Rightarrow> app_state option" where
  "fire Submit s = Some (handleFormSubmit s)"
| "fire (Complete c) s = getRecipe_resume c s"
| "fire NextClick s = Some (handleNextStep s)"
| "fire PrevClick s = Some (handlePrevStep s)"
| "fire RepeatClick s = Some (handleRepeatStep s)"
| "fire StartOverClick s = Some (snd (handleStartOver s))"
| "fire TryAgainClick s =
     Some (if Button ''Try Again'' \<in> set (errorMessageDiv_children s)
           then backButton_onclick s else s)"

fun run :: "event list \<Rightarrow> app_state \<Rightarrow> app_state option" where
  "run [] s = Some s"
| "run (e # es) s = (case fire e s of None \<Rightarrow> None | Some s' \<Rightarrow> run es s')"

text \<open>The completions and events on which the embedding has a result.\<close>

definition modelled :: "completion \<Rightarrow> bool" where
  "modelled c = (case c of Throws e \<Rightarrow> True | Parsed v \<Rightarrow> guard v \<noteq> Unmodelled)"

fun event_modelled :: "event \<Rightarrow> bool" where
  "event_modelled (Complete c) = modelled c"
| "event_modelled e = True"

text \<open>Whether a completion takes the branch of lines 140 to 143.\<close>

definition accepts :: "completion \<Rightarrow> bool" where
  "accepts c =
     (case c of
        Throws e \<Rightarrow> False
      | Parsed v \<Rightarrow> (case guard v of Accepted steps \<Rightarrow> True | Refused \<Rightarrow> False | Unmodelled \<Rightarrow> False))"

text \<open>
  \<open>initialize\<close> (lines 194 to 208), given whether \<^verbatim>\<open>process.env.API_KEY\<close> is truthy.
  The listeners it registers are the events above.
\<close>

definition initialize :: "bool \<Rightarrow> app_state \<Rightarrow> app_state" where
  "initialize api_key s =
     (if \<not> api_key then showError ''API_KEY is not configured.'' s else showView Input s)"

text \<open>
  The state when the module is evaluated: the variables of lines 22 and 23 have their
  initial values. The page is taken with no element hidden, an empty input field, an empty
  error element and a browser that has speech synthesis. \<open>started\<close> is the state once
  \<open>initialize\<close> has found the key.
\<close>

definition page :: app_state where
  "page =
     \<lparr>inputView_hidden = False, recipeView_hidden = False, loadingSpinner_hidden = False,
      errorMessageDiv_hidden = False, errorMessageDiv_children = [], dishInput_value = [],
      recipeStepText_textContent = None, prevStepBtn_disabled = False,
      nextStepBtn_disabled = False, recipeSteps = [], currentStepIndex = 0,
      speechSynthesis_in_window = True, speechQueue = [], speechCalls = [], console = [],
      requests = []\<rparr>"

definition started :: app_state where
  "started = initialize True page"

section \<open>Properties stated by the specification\<close>

text \<open>The invariant of the step index.\<close>

definition index_inv :: "app_state \<Rightarrow> bool" where
  "index_inv s =
     (if recipeSteps s = [] then currentStepIndex s = 0
      else 0 \<le> currentStepIndex s \<and> currentStepIndex s < int (length (recipeSteps s)))"

text \<open>
  One read-aloud between \<open>s\<close> and \<open>s'\<close>: the trace grows by one cancel and one speak, in
  that order, the utterance carries the step at the index of \<open>s'\<close>, and it is the only
  utterance left in the queue.
\<close>

definition read_aloud :: "app_state \<Rightarrow> app_state \<Rightarrow> bool" where
  "read_aloud s s' =
     (let u = \<lparr>utterance_text = Some (recipeSteps s' ! nat (currentStepIndex s')),
                utterance_lang = ''en-US''\<rparr>
      in 0 \<le> currentStepIndex s' \<and> currentStepIndex s' < int (length (recipeSteps s')) \<and>
         speechCalls s' = speechCalls s @ [CancelCall, SpeakCall u] \<and>
         speechQueue s' = [u])"

text \<open>The step display agrees with the step index.\<close>

definition display_synced :: "app_state \<Rightarrow> bool" where
  "display_synced s =
     (recipeStepText_textContent s = js_index (recipeSteps s) (currentStepIndex s) \<and>
      prevStepBtn_disabled s = (currentStepIndex s = 0) \<and>
      nextStepBtn_disabled s = (currentStepIndex s = int (length (recipeSteps s)) - 1))"

section \<open>Closed forms of the handlers\<close>

lemma showView_eq:
  "showView v s = s\<lparr>inputView_hidden := (v \<noteq> Input), recipeView_hidden := (v \<noteq> Recipe),
      loadingSpinner_hidden := (v \<noteq> Loading), errorMessageDiv_hidden := (v \<noteq> Error)\<rparr>"
  by (cases v) (simp_all add: showView_def)

lemma visible_showView: "visible v' (showView v s) = (v' = v)"
  by (cases v'; cases v) (simp_all add: showView_eq)

lemma visible_views_showView: "visible_views (showView v s) = [v]"
  by (cases v) (simp_all add: visible_views_def showView_eq)

lemma showError_eq:
  "showError m s = (showView Error s)\<lparr>errorMessageDiv_children :=
      [Paragraph (''Oops! Something went wrong: '' @ m @ ''.''), Button ''Try Again'']\<rparr>"
  by (simp add: showError_def showView_eq)

lemma catch_block_eq:
  "catch_block e s = (showView Error s)\<lparr>errorMessageDiv_children :=
      [Paragraph (''Oops! Something went wrong: '' @ message_of e @ ''.''), Button ''Try Again''],
      console := console s @ [ErrorEntry ''Error fetching recipe:'' e]\<rparr>"
  by (simp add: catch_block_def showError_eq showView_eq)

lemma speak_eq:
  "speak t s =
     (if speechSynthesis_in_window s
      then s\<lparr>speechQueue := [\<lparr>utterance_text = t, utterance_lang = ''en-US''\<rparr>],
             speechCalls := speechCalls s @
               [CancelCall, SpeakCall \<lparr>utterance_text = t, utterance_lang = ''en-US''\<rparr>]\<rparr>
      else s\<lparr>console := console s @ [Warn ''Speech Synthesis not supported in this browser.'']\<rparr>)"
  by (simp add: speak_def Let_def)

lemma updateRecipeStepUI_eq:
  "updateRecipeStepUI s =
     (if recipeSteps s = [] then s
      else speak (js_index (recipeSteps s) (currentStepIndex s))
             (s\<lparr>recipeStepText_textContent := js_index (recipeSteps s) (currentStepIndex s),
                prevStepBtn_disabled := (currentStepIndex s = 0),
                nextStepBtn_disabled := (currentStepIndex s = int (length (recipeSteps s)) - 1)\<rparr>))"
  by (simp add: updateRecipeStepUI_def Let_def)

lemma updateRecipeStepUI_frame:
  "recipeSteps (updateRecipeStepUI s) = recipeSteps s"
  "currentStepIndex (updateRecipeStepUI s) = currentStepIndex s"
  "inputView_hidden (updateRecipeStepUI s) = inputView_hidden s"
  "recipeView_hidden (updateRecipeStepUI s) = recipeView_hidden s"
  "loadingSpinner_hidden (updateRecipeStepUI s) = loadingSpinner_hidden s"
  "errorMessageDiv_hidden (updateRecipeStepUI s) = errorMessageDiv_hidden s"
  "errorMessageDiv_children (updateRecipeStepUI s) = errorMessageDiv_children s"
  "dishInput_value (updateRecipeStepUI s) = dishInput_value s"
  "requests (updateRecipeStepUI s) = requests s"
  "speechSynthesis_in_window (updateRecipeStepUI s) = speechSynthesis_in_window s"
  by (simp_all add: updateRecipeStepUI_eq speak_eq)

lemma strings_of_length: "strings_of vs = Some ss \<Longrightarrow> length ss = length vs"
  by (induction vs arbitrary: ss rule: strings_of.induct) (auto split: option.splits)

lemma strings_of_map: "strings_of (map JString ss) = Some ss"
  by (induction ss) simp_all

lemma length_positive_Accepted: "length_positive v = Accepted steps \<Longrightarrow> steps \<noteq> []"
  by (cases v) (auto split: if_splits option.splits json.splits dest: strings_of_length)

lemma guard_Accepted_nonempty: "guard v = Accepted steps \<Longrightarrow> steps \<noteq> []"
  by (auto simp: guard_def split: if_splits option.splits dest: length_positive_Accepted)

lemma getRecipe_resume_Some: "modelled c \<Longrightarrow> \<exists>s'. getRecipe_resume c s = Some s'"
  by (cases c) (auto simp: getRecipe_resume_def modelled_def split: verdict.splits)

section \<open>The step index stays in range\<close>

lemma getRecipe_resume_index_inv:
  "index_inv s \<Longrightarrow> getRecipe_resume c s = Some s' \<Longrightarrow> index_inv s'"
  by (cases c)
     (auto simp: getRecipe_resume_def index_inv_def catch_block_eq showView_eq
        updateRecipeStepUI_frame
        split: verdict.splits if_splits dest: guard_Accepted_nonempty)

lemma handleNextStep_index_inv: "index_inv s \<Longrightarrow> index_inv (handleNextStep s)"
  by (auto simp: handleNextStep_def index_inv_def updateRecipeStepUI_frame split: if_splits)

lemma handlePrevStep_index_inv: "index_inv s \<Longrightarrow> index_inv (handlePrevStep s)"
  by (auto simp: handlePrevStep_def index_inv_def updateRecipeStepUI_frame split: if_splits)

lemma handleRepeatStep_index_inv: "index_inv s \<Longrightarrow> index_inv (handleRepeatStep s)"
  by (simp add: handleRepeatStep_def index_inv_def updateRecipeStepUI_frame)

lemma handleStartOver_index_inv: "index_inv (snd (handleStartOver s))"
  by (simp add: handleStartOver_def index_inv_def showView_eq Let_def)

lemma handleFormSubmit_index_inv: "index_inv s \<Longrightarrow> index_inv (handleFormSubmit s)"
  by (simp add: handleFormSubmit_def getRecipe_start_def index_inv_def showView_eq Let_def)

lemma backButton_index_inv: "index_inv s \<Longrightarrow> index_inv (backButton_onclick s)"
  by (simp add: backButton_onclick_def index_inv_def showView_eq)

lemma fire_index_inv: "index_inv s \<Longrightarrow> fire e s = Some s' \<Longrightarrow> index_inv s'"
proof (cases e)
  case (Complete c)
  assume "index_inv s" "fire e s = Some s'"
  with Complete show ?thesis by (simp add: getRecipe_resume_index_inv)
qed (auto simp: handleNextStep_index_inv handlePrevStep_index_inv handleRepeatStep_index_inv
       handleStartOver_index_inv handleFormSubmit_index_inv backButton_index_inv)

lemma run_index_inv: "index_inv s \<Longrightarrow> run es s = Some s' \<Longrightarrow> index_inv s'"
proof (induction es arbitrary: s)
  case Nil
  then show ?case by simp
next
  case (Cons e es)
  then show ?case
    by (auto split: option.splits dest: fire_index_inv)
qed

lemma fire_Some: "event_modelled e \<Longrightarrow> \<exists>s'. fire e s = Some s'"
  by (cases e) (simp_all add: getRecipe_resume_Some)

lemma run_Some: "list_all event_modelled es \<Longrightarrow> \<exists>s'. run es s = Some s'"
proof (induction es arbitrary: s)
  case Nil
  then show ?case by simp
next
  case (Cons e es)
  from Cons.prems have "event_modelled e" and rest: "list_all event_modelled es" by simp_all
  then obtain s1 where "fire e s = Some s1" using fire_Some by blast
  moreover obtain s2 where "run es s1 = Some s2" using Cons.IH [OF rest] by blast
  ultimately show ?case by simp
qed

text \<open>
  Claim C1. From a state in which the step index is in range (0 when no steps are loaded,
  between 0 and the last position otherwise), every sequence of events (submissions,
  completed requests, next, previous, repeat, start over, try again) runs to a state in
  which it is in range again; the run has a result whenever its completions are within the
  embedding. Next at the last index and previous at index 0 change nothing.
\<close>

theorem step_index_invariant:
  assumes "index_inv s"
  shows "(list_all event_modelled es \<longrightarrow> (\<exists>s'. run es s = Some s')) \<and>
         (\<forall>s'. run es s = Some s' \<longrightarrow> index_inv s') \<and>
         (currentStepIndex s = int (length (recipeSteps s)) - 1 \<longrightarrow> handleNextStep s = s) \<and>
         (currentStepIndex s = 0 \<longrightarrow> handlePrevStep s = s)"
proof -
  have "\<forall>s'. run es s = Some s' \<longrightarrow> index_inv s'"
    using assms run_index_inv by blast
  moreover have "list_all event_modelled es \<longrightarrow> (\<exists>s'. run es s = Some s')"
    using run_Some by blast
  moreover have "currentStepIndex s = int (length (recipeSteps s)) - 1 \<longrightarrow> handleNextStep s = s"
    by (simp add: handleNextStep_def)
  moreover have "currentStepIndex s = 0 \<longrightarrow> handlePrevStep s = s"
    by (simp add: handlePrevStep_def)
  ultimately show ?thesis by blast
qed

theorem step_index_invariant_witness:
  "index_inv (started\<lparr>recipeSteps := [''Whisk'']\<rparr>) \<and>
   list_all event_modelled
     [NextClick, Complete (Parsed (JObject [(''steps'', JArray [JString ''Crack eggs'', JString ''Cook''])])),
      NextClick, NextClick, PrevClick, RepeatClick, StartOverClick, Submit,
      Complete (Throws NonError), TryAgainClick] \<and>
   currentStepIndex (started\<lparr>recipeSteps := [''Whisk'']\<rparr>) =
     int (length (recipeSteps (started\<lparr>recipeSteps := [''Whisk'']\<rparr>))) - 1 \<and>
   currentStepIndex (started\<lparr>recipeSteps := [''Whisk'']\<rparr>) = 0 \<and>
   (\<exists>s'. run
     [NextClick, Complete (Parsed (JObject [(''steps'', JArray [JString ''Crack eggs'', JString ''Cook''])])),
      NextClick, NextClick, PrevClick, RepeatClick, StartOverClick, Submit,
      Complete (Throws NonError), TryAgainClick]
     (started\<lparr>recipeSteps := [''Whisk'']\<rparr>) = Some s' \<and> index_inv s') \<and>
   handleNextStep (started\<lparr>recipeSteps := [''Whisk'']\<rparr>) =
     started\<lparr>recipeSteps := [''Whisk'']\<rparr> \<and>
   handlePrevStep (started\<lparr>recipeSteps := [''Whisk'']\<rparr>) =
     started\<lparr>recipeSteps := [''Whisk'']\<rparr>"
proof -
  let ?s = "started\<lparr>recipeSteps := [''Whisk'']\<rparr>"
  let ?es = "[NextClick, Complete (Parsed (JObject [(''steps'', JArray [JString ''Crack eggs'', JString ''Cook''])])),
      NextClick, NextClick, PrevClick, RepeatClick, StartOverClick, Submit,
      Complete (Throws NonError), TryAgainClick]"
  have inv: "index_inv ?s"
    by (simp add: index_inv_def started_def initialize_def page_def showView_eq)
  have ok: "list_all event_modelled ?es"
    by (simp add: modelled_def guard_def own_property_def)
  have last: "currentStepIndex ?s = int (length (recipeSteps ?s)) - 1"
    by (simp add: started_def initialize_def page_def showView_eq)
  have first: "currentStepIndex ?s = 0"
    by (simp add: started_def initialize_def page_def showView_eq)
  show ?thesis
    using step_index_invariant [OF inv, of ?es] inv ok last first by blast
qed

section \<open>The view controller shows one view\<close>

text \<open>
  Claim C6. For each of the four view names, \<open>showView\<close> makes that view visible and hides
  the three others, so that the visible views are exactly that one; it changes nothing but
  the four visibility flags, and a second call with the same name changes nothing more.
\<close>

theorem showView_exclusive:
  "visible v' (showView v s) = (v' = v) \<and>
   visible_views (showView v s) = [v] \<and>
   showView v (showView v s) = showView v s \<and>
   showView v s = s\<lparr>inputView_hidden := (v \<noteq> Input), recipeView_hidden := (v \<noteq> Recipe),
      loadingSpinner_hidden := (v \<noteq> Loading), errorMessageDiv_hidden := (v \<noteq> Error)\<rparr>"
proof -
  have idem: "showView v (showView v s) = showView v s"
    by (simp add: showView_eq)
  show ?thesis
    using visible_showView visible_views_showView idem showView_eq by blast
qed

section \<open>Completion of a request\<close>

lemma steps_of_Some_truthy: "steps_of v = Some st \<Longrightarrow> truthy v"
  by (cases v) simp_all

lemma guard_nonempty_array:
  "steps_of v = Some (JArray (map JString (x # xs))) \<Longrightarrow> guard v = Accepted (x # xs)"
  by (simp add: guard_def steps_of_Some_truthy strings_of_map)

lemma getRecipe_resume_Throws: "getRecipe_resume (Throws e) s = Some (catch_block e s)"
  by (simp add: getRecipe_resume_def)

lemma getRecipe_resume_Refused:
  "guard v = Refused \<Longrightarrow>
   getRecipe_resume (Parsed v) s =
     Some (catch_block (ErrorObject ''Could not find a recipe for that dish.'') s)"
  by (simp add: getRecipe_resume_def)

lemma getRecipe_resume_Accepted:
  "guard v = Accepted steps \<Longrightarrow>
   getRecipe_resume (Parsed v) s =
     Some (showView Recipe (updateRecipeStepUI (s\<lparr>recipeSteps := steps, currentStepIndex := 0\<rparr>)))"
  by (simp add: getRecipe_resume_def)

lemma visible_views_catch_block: "visible_views (catch_block e s) = [Error]"
  by (simp add: catch_block_eq visible_views_def showView_eq)




text \<open>
  Claim C4. For every response whose steps value is a non-empty array of strings, the load replaces
  the session's steps with that array, sets the step index to 0 and leaves the recipe view
  as the one visible view; the display shows the first step, with previous disabled and
  next disabled only when there is a single step.
\<close>

theorem load_nonempty_steps:
  assumes "steps_of recipeData = Some (JArray (map JString (x # xs)))"
  shows "\<exists>s'. getRecipe_resume (Parsed recipeData) s = Some s' \<and>
           recipeSteps s' = x # xs \<and> currentStepIndex s' = 0 \<and>
           visible_views s' = [Recipe] \<and>
           recipeStepText_textContent s' = Some x \<and>
           prevStepBtn_disabled s' \<and> nextStepBtn_disabled s' = (xs = [])"
proof -
  let ?s' = "showView Recipe (updateRecipeStepUI (s\<lparr>recipeSteps := x # xs, currentStepIndex := 0\<rparr>))"
  have "getRecipe_resume (Parsed recipeData) s = Some ?s'"
    using assms by (simp add: getRecipe_resume_Accepted guard_nonempty_array)
  moreover have "recipeSteps ?s' = x # xs" "currentStepIndex ?s' = 0"
    by (simp_all add: showView_eq updateRecipeStepUI_frame)
  moreover have "visible_views ?s' = [Recipe]"
    by (simp add: visible_views_showView)
  moreover have "recipeStepText_textContent ?s' = Some x" "prevStepBtn_disabled ?s'"
    "nextStepBtn_disabled ?s' = (xs = [])"
    by (simp_all add: showView_eq updateRecipeStepUI_eq speak_eq js_index_def)
  ultimately show ?thesis by blast
qed

theorem load_nonempty_steps_witness:
  "steps_of (JObject [(''steps'', JArray [JString ''Crack eggs'', JString ''Whisk'', JString ''Cook''])]) =
     Some (JArray (map JString [''Crack eggs'', ''Whisk'', ''Cook''])) \<and>
   (\<exists>s'. getRecipe_resume
       (Parsed (JObject [(''steps'', JArray [JString ''Crack eggs'', JString ''Whisk'', JString ''Cook''])]))
       started = Some s' \<and>
     recipeSteps s' = [''Crack eggs'', ''Whisk'', ''Cook''] \<and>
     currentStepIndex s' = 0 \<and> visible_views s' = [Recipe] \<and>
     recipeStepText_textContent s' = Some ''Crack eggs'' \<and>
     prevStepBtn_disabled s' \<and> \<not> nextStepBtn_disabled s')"
proof -
  have h: "steps_of (JObject [(''steps'', JArray [JString ''Crack eggs'', JString ''Whisk'', JString ''Cook''])]) =
     Some (JArray (map JString (''Crack eggs'' # [''Whisk'', ''Cook''])))"
    by (simp add: own_property_def)
  show ?thesis
    using load_nonempty_steps [OF h, of started] h by simp
qed

section \<open>Failed requests and recovery\<close>

lemma catch_block_frame:
  "recipeSteps (catch_block e s) = recipeSteps s"
  "currentStepIndex (catch_block e s) = currentStepIndex s"
  "dishInput_value (catch_block e s) = dishInput_value s"
  "errorMessageDiv_children (catch_block e s) =
     [Paragraph (''Oops! Something went wrong: '' @ message_of e @ ''.''), Button ''Try Again'']"
  by (simp_all add: catch_block_eq showView_eq)

lemma backButton_onclick_eq:
  "backButton_onclick s = s\<lparr>inputView_hidden := False, recipeView_hidden := True,
      loadingSpinner_hidden := True, errorMessageDiv_hidden := True,
      errorMessageDiv_children := []\<rparr>"
  by (simp add: backButton_onclick_def showView_eq)





text \<open>
  Claim C5, as stated, fails on the dish field: after a submission of \<^verbatim>\<open>omelette\<close> that
  ends with an empty steps array, the error view is shown, and the button's handler returns
  to the input view with the field still holding \<^verbatim>\<open>omelette\<close>.
\<close>

theorem try_again_keeps_dish_name:
  "map_option visible_views
     (getRecipe_resume (Parsed (JObject [(''steps'', JArray [])]))
        (handleFormSubmit (started\<lparr>dishInput_value := ''omelette''\<rparr>))) = Some [Error] \<and>
   map_option (dishInput_value \<circ> backButton_onclick)
     (getRecipe_resume (Parsed (JObject [(''steps'', JArray [])]))
        (handleFormSubmit (started\<lparr>dishInput_value := ''omelette''\<rparr>))) = Some ''omelette'' \<and>
   map_option (visible_views \<circ> backButton_onclick)
     (getRecipe_resume (Parsed (JObject [(''steps'', JArray [])]))
        (handleFormSubmit (started\<lparr>dishInput_value := ''omelette''\<rparr>))) = Some [Input]"
proof -
  have g: "guard (JObject [(''steps'', JArray [])]) = Refused"
    by (simp add: guard_def own_property_def)
  have t: "trim ''omelette'' = ''omelette''"
    by (simp add: trim_def is_white_space_def)
  have d: "dishInput_value (handleFormSubmit (started\<lparr>dishInput_value := ''omelette''\<rparr>)) = ''omelette''"
    by (simp add: handleFormSubmit_def Let_def t getRecipe_start_def showView_eq)
  have v: "visible_views (backButton_onclick s) = [Input]" for s
    by (simp add: backButton_onclick_def visible_views_def showView_eq)
  have k: "dishInput_value (backButton_onclick s) = dishInput_value s" for s
    by (simp add: backButton_onclick_eq)
  show ?thesis
    by (simp add: getRecipe_resume_Refused [OF g] visible_views_catch_block catch_block_frame d v k)
qed

text \<open>
  Claim C5, amended. After every completion that is not accepted (a thrown error, or a
  response refused by the guard, such as one with an empty steps array), the error view is
  the one visible view and holds the \<^verbatim>\<open>Try Again\<close> button; a click on it runs the
  button's handler, which leaves the input view as the one visible view and the error
  element empty. The dish field, the steps and the index keep the values they had when the
  request ended.
\<close>

theorem recovery_returns_to_input:
  assumes "modelled c" and "\<not> accepts c"
  shows "\<exists>s'. getRecipe_resume c s = Some s' \<and>
           visible_views s' = [Error] \<and>
           Button ''Try Again'' \<in> set (errorMessageDiv_children s') \<and>
           fire TryAgainClick s' = Some (backButton_onclick s') \<and>
           visible_views (backButton_onclick s') = [Input] \<and>
           errorMessageDiv_children (backButton_onclick s') = [] \<and>
           dishInput_value (backButton_onclick s') = dishInput_value s \<and>
           recipeSteps (backButton_onclick s') = recipeSteps s \<and>
           currentStepIndex (backButton_onclick s') = currentStepIndex s"
proof -
  obtain e where r: "getRecipe_resume c s = Some (catch_block e s)"
  proof (cases c)
    case (Throws e)
    then show ?thesis using that by (simp add: getRecipe_resume_Throws)
  next
    case (Parsed v)
    with assms have "guard v = Refused"
      by (cases "guard v") (simp_all add: modelled_def accepts_def)
    with Parsed show ?thesis using that by (simp add: getRecipe_resume_Refused)
  qed
  let ?s' = "catch_block e s"
  have "visible_views ?s' = [Error]"
    by (simp add: visible_views_catch_block)
  moreover have b: "Button ''Try Again'' \<in> set (errorMessageDiv_children ?s')"
    by (simp add: catch_block_frame)
  moreover have "fire TryAgainClick ?s' = Some (backButton_onclick ?s')"
    using b by simp
  moreover have "visible_views (backButton_onclick ?s') = [Input]"
    by (simp add: backButton_onclick_def visible_views_def showView_eq)
  moreover have "errorMessageDiv_children (backButton_onclick ?s') = []"
    "dishInput_value (backButton_onclick ?s') = dishInput_value s"
    "recipeSteps (backButton_onclick ?s') = recipeSteps s"
    "currentStepIndex (backButton_onclick ?s') = currentStepIndex s"
    by (simp_all add: backButton_onclick_eq catch_block_frame)
  ultimately show ?thesis using r by blast
qed

theorem recovery_returns_to_input_witness:
  "modelled (Parsed (JObject [(''steps'', JArray [])])) \<and>
   \<not> accepts (Parsed (JObject [(''steps'', JArray [])])) \<and>
   (\<exists>s'. getRecipe_resume (Parsed (JObject [(''steps'', JArray [])]))
        (started\<lparr>dishInput_value := ''omelette''\<rparr>) = Some s' \<and>
      visible_views s' = [Error] \<and>
      Button ''Try Again'' \<in> set (errorMessageDiv_children s') \<and>
      visible_views (backButton_onclick s') = [Input] \<and>
      errorMessageDiv_children (backButton_onclick s') = [] \<and>
      dishInput_value (backButton_onclick s') = ''omelette'')"
proof -
  let ?c = "Parsed (JObject [(''steps'', JArray [])])"
  have m: "modelled ?c" and a: "\<not> accepts ?c"
    by (simp_all add: modelled_def accepts_def guard_def own_property_def)
  have d: "dishInput_value (started\<lparr>dishInput_value := ''omelette''\<rparr>) = ''omelette''"
    by simp
  show ?thesis
    using recovery_returns_to_input [OF m a, of "started\<lparr>dishInput_value := ''omelette''\<rparr>"] m a d
    by auto
qed

section \<open>Reading the step aloud\<close>

lemma read_aloud_updateRecipeStepUI:
  assumes "speechSynthesis_in_window s" and "recipeSteps s \<noteq> []"
    and "0 \<le> currentStepIndex s" and "currentStepIndex s < int (length (recipeSteps s))"
    and "speechCalls s = speechCalls s0"
  shows "read_aloud s0 (updateRecipeStepUI s)"
  using assms by (simp add: read_aloud_def updateRecipeStepUI_eq speak_eq js_index_def)

lemma read_aloud_showView: "read_aloud s0 (showView v s) = read_aloud s0 s"
  by (simp add: read_aloud_def showView_eq)

text \<open>
  Claim C7, as stated, fails in a browser without speech synthesis, which \<open>speak\<close>
  tests for: a load of one step shows the recipe view, makes no call on the speech
  facility and logs a warning instead.
\<close>

theorem load_without_speech_is_silent:
  "map_option visible_views
     (getRecipe_resume (Parsed (JObject [(''steps'', JArray [JString ''Crack eggs''])]))
        (started\<lparr>speechSynthesis_in_window := False\<rparr>)) = Some [Recipe] \<and>
   map_option speechCalls
     (getRecipe_resume (Parsed (JObject [(''steps'', JArray [JString ''Crack eggs''])]))
        (started\<lparr>speechSynthesis_in_window := False\<rparr>)) = Some [] \<and>
   map_option speechQueue
     (getRecipe_resume (Parsed (JObject [(''steps'', JArray [JString ''Crack eggs''])]))
        (started\<lparr>speechSynthesis_in_window := False\<rparr>)) = Some [] \<and>
   map_option console
     (getRecipe_resume (Parsed (JObject [(''steps'', JArray [JString ''Crack eggs''])]))
        (started\<lparr>speechSynthesis_in_window := False\<rparr>)) =
     Some [Warn ''Speech Synthesis not supported in this browser.'']"
proof -
  have g: "guard (JObject [(''steps'', JArray [JString ''Crack eggs''])]) =
             Accepted [''Crack eggs'']"
    by (simp add: guard_def own_property_def)
  have "map_option visible_views
     (getRecipe_resume (Parsed (JObject [(''steps'', JArray [JString ''Crack eggs''])]))
        (started\<lparr>speechSynthesis_in_window := False\<rparr>)) = Some [Recipe]"
    by (simp add: getRecipe_resume_Accepted [OF g] visible_views_showView)
  moreover have "map_option speechCalls
     (getRecipe_resume (Parsed (JObject [(''steps'', JArray [JString ''Crack eggs''])]))
        (started\<lparr>speechSynthesis_in_window := False\<rparr>)) = Some []"
    "map_option speechQueue
     (getRecipe_resume (Parsed (JObject [(''steps'', JArray [JString ''Crack eggs''])]))
        (started\<lparr>speechSynthesis_in_window := False\<rparr>)) = Some []"
    "map_option console
     (getRecipe_resume (Parsed (JObject [(''steps'', JArray [JString ''Crack eggs''])]))
        (started\<lparr>speechSynthesis_in_window := False\<rparr>)) =
     Some [Warn ''Speech Synthesis not supported in this browser.'']"
    by (simp_all add: getRecipe_resume_Accepted [OF g] showView_eq updateRecipeStepUI_eq
          speak_eq started_def initialize_def page_def)
  ultimately show ?thesis by simp
qed

text \<open>
  Claim C7, amended. In a browser that has speech synthesis, from a state whose step index
  is in range: a load of a non-empty array of strings, a next before the last index, a
  previous after index 0 and a repeat with steps loaded each make exactly one cancel
  followed by one speak, whose utterance carries the step at the resulting index and is
  the only utterance left in the queue. A next at the last index and a previous at index 0
  make no call on the speech facility.
\<close>

theorem transitions_read_aloud:
  assumes "speechSynthesis_in_window s" and "index_inv s"
  shows "(steps_of v = Some (JArray (map JString (x # xs))) \<longrightarrow>
            (\<exists>s'. getRecipe_resume (Parsed v) s = Some s' \<and> read_aloud s s' \<and>
                   currentStepIndex s' = 0 \<and> recipeSteps s' = x # xs)) \<and>
         (currentStepIndex s < int (length (recipeSteps s)) - 1 \<longrightarrow>
            read_aloud s (handleNextStep s) \<and>
            currentStepIndex (handleNextStep s) = currentStepIndex s + 1 \<and>
            recipeSteps (handleNextStep s) = recipeSteps s) \<and>
         (0 < currentStepIndex s \<longrightarrow>
            read_aloud s (handlePrevStep s) \<and>
            currentStepIndex (handlePrevStep s) = currentStepIndex s - 1 \<and>
            recipeSteps (handlePrevStep s) = recipeSteps s) \<and>
         (recipeSteps s \<noteq> [] \<longrightarrow>
            read_aloud s (handleRepeatStep s) \<and>
            currentStepIndex (handleRepeatStep s) = currentStepIndex s \<and>
            recipeSteps (handleRepeatStep s) = recipeSteps s) \<and>
         (currentStepIndex t = int (length (recipeSteps t)) - 1 \<longrightarrow>
            speechCalls (handleNextStep t) = speechCalls t \<and>
            speechQueue (handleNextStep t) = speechQueue t) \<and>
         (currentStepIndex t = 0 \<longrightarrow>
            speechCalls (handlePrevStep t) = speechCalls t \<and>
            speechQueue (handlePrevStep t) = speechQueue t)"
proof -
  have load: "steps_of v = Some (JArray (map JString (x # xs))) \<longrightarrow>
      (\<exists>s'. getRecipe_resume (Parsed v) s = Some s' \<and> read_aloud s s' \<and>
             currentStepIndex s' = 0 \<and> recipeSteps s' = x # xs)"
  proof
    assume "steps_of v = Some (JArray (map JString (x # xs)))"
    then have "getRecipe_resume (Parsed v) s =
        Some (showView Recipe (updateRecipeStepUI (s\<lparr>recipeSteps := x # xs, currentStepIndex := 0\<rparr>)))"
      by (simp add: getRecipe_resume_Accepted guard_nonempty_array)
    moreover have "read_aloud s (updateRecipeStepUI (s\<lparr>recipeSteps := x # xs, currentStepIndex := 0\<rparr>))"
      using assms(1) by (intro read_aloud_updateRecipeStepUI) simp_all
    then have "read_aloud s
        (showView Recipe (updateRecipeStepUI (s\<lparr>recipeSteps := x # xs, currentStepIndex := 0\<rparr>)))"
      by (simp add: read_aloud_showView)
    moreover have "currentStepIndex
        (showView Recipe (updateRecipeStepUI (s\<lparr>recipeSteps := x # xs, currentStepIndex := 0\<rparr>))) = 0"
      "recipeSteps
        (showView Recipe (updateRecipeStepUI (s\<lparr>recipeSteps := x # xs, currentStepIndex := 0\<rparr>))) = x # xs"
      by (simp_all add: showView_eq updateRecipeStepUI_frame)
    ultimately show "\<exists>s'. getRecipe_resume (Parsed v) s = Some s' \<and> read_aloud s s' \<and>
             currentStepIndex s' = 0 \<and> recipeSteps s' = x # xs"
      by blast
  qed
  have "next": "currentStepIndex s < int (length (recipeSteps s)) - 1 \<longrightarrow>
      read_aloud s (handleNextStep s) \<and>
      currentStepIndex (handleNextStep s) = currentStepIndex s + 1 \<and>
      recipeSteps (handleNextStep s) = recipeSteps s"
  proof
    assume less: "currentStepIndex s < int (length (recipeSteps s)) - 1"
    then have ne: "recipeSteps s \<noteq> []" and low: "0 \<le> currentStepIndex s"
      using assms(2) by (auto simp: index_inv_def split: if_splits)
    have "read_aloud s (updateRecipeStepUI (s\<lparr>currentStepIndex := currentStepIndex s + 1\<rparr>))"
      using assms(1) ne low less by (intro read_aloud_updateRecipeStepUI) simp_all
    with less show "read_aloud s (handleNextStep s) \<and>
      currentStepIndex (handleNextStep s) = currentStepIndex s + 1 \<and>
      recipeSteps (handleNextStep s) = recipeSteps s"
      by (simp add: handleNextStep_def updateRecipeStepUI_frame)
  qed
  have prev: "0 < currentStepIndex s \<longrightarrow>
      read_aloud s (handlePrevStep s) \<and>
      currentStepIndex (handlePrevStep s) = currentStepIndex s - 1 \<and>
      recipeSteps (handlePrevStep s) = recipeSteps s"
  proof
    assume pos: "0 < currentStepIndex s"
    then have ne: "recipeSteps s \<noteq> []" and up: "currentStepIndex s < int (length (recipeSteps s))"
      using assms(2) by (auto simp: index_inv_def split: if_splits)
    have "read_aloud s (updateRecipeStepUI (s\<lparr>currentStepIndex := currentStepIndex s - 1\<rparr>))"
      using assms(1) ne up pos by (intro read_aloud_updateRecipeStepUI) simp_all
    with pos show "read_aloud s (handlePrevStep s) \<and>
      currentStepIndex (handlePrevStep s) = currentStepIndex s - 1 \<and>
      recipeSteps (handlePrevStep s) = recipeSteps s"
      by (simp add: handlePrevStep_def updateRecipeStepUI_frame)
  qed
  have rep: "recipeSteps s \<noteq> [] \<longrightarrow>
      read_aloud s (handleRepeatStep s) \<and>
      currentStepIndex (handleRepeatStep s) = currentStepIndex s \<and>
      recipeSteps (handleRepeatStep s) = recipeSteps s"
  proof
    assume ne: "recipeSteps s \<noteq> []"
    then have "0 \<le> currentStepIndex s" "currentStepIndex s < int (length (recipeSteps s))"
      using assms(2) by (auto simp: index_inv_def)
    then have "read_aloud s (updateRecipeStepUI s)"
      using assms(1) ne by (intro read_aloud_updateRecipeStepUI) simp_all
    then show "read_aloud s (handleRepeatStep s) \<and>
      currentStepIndex (handleRepeatStep s) = currentStepIndex s \<and>
      recipeSteps (handleRepeatStep s) = recipeSteps s"
      by (simp add: handleRepeatStep_def updateRecipeStepUI_frame)
  qed
  have edge: "currentStepIndex t = int (length (recipeSteps t)) - 1 \<longrightarrow>
      speechCalls (handleNextStep t) = speechCalls t \<and>
      speechQueue (handleNextStep t) = speechQueue t"
    "currentStepIndex t = 0 \<longrightarrow>
      speechCalls (handlePrevStep t) = speechCalls t \<and>
      speechQueue (handlePrevStep t) = speechQueue t"
    by (simp_all add: handleNextStep_def handlePrevStep_def)
  from load "next" prev rep edge show ?thesis by blast
qed

theorem transitions_read_aloud_witness:
  "speechSynthesis_in_window
     (started\<lparr>recipeSteps := [''Crack eggs'', ''Whisk'', ''Cook''],
              currentStepIndex := 1\<rparr>) \<and>
   index_inv
     (started\<lparr>recipeSteps := [''Crack eggs'', ''Whisk'', ''Cook''],
              currentStepIndex := 1\<rparr>) \<and>
   steps_of (JObject [(''steps'', JArray [JString ''Toast'', JString ''Butter''])]) =
     Some (JArray (map JString [''Toast'', ''Butter''])) \<and>
   speechQueue (handleNextStep
     (started\<lparr>recipeSteps := [''Crack eggs'', ''Whisk'', ''Cook''],
              currentStepIndex := 1\<rparr>)) =
     [\<lparr>utterance_text = Some ''Cook'', utterance_lang = ''en-US''\<rparr>] \<and>
   speechQueue (handlePrevStep
     (started\<lparr>recipeSteps := [''Crack eggs'', ''Whisk'', ''Cook''],
              currentStepIndex := 1\<rparr>)) =
     [\<lparr>utterance_text = Some ''Crack eggs'', utterance_lang = ''en-US''\<rparr>] \<and>
   speechQueue (handleRepeatStep
     (started\<lparr>recipeSteps := [''Crack eggs'', ''Whisk'', ''Cook''],
              currentStepIndex := 1\<rparr>)) =
     [\<lparr>utterance_text = Some ''Whisk'', utterance_lang = ''en-US''\<rparr>] \<and>
   map_option speechCalls (getRecipe_resume
     (Parsed (JObject [(''steps'', JArray [JString ''Toast'', JString ''Butter''])]))
     (started\<lparr>recipeSteps := [''Crack eggs'', ''Whisk'', ''Cook''],
              currentStepIndex := 1\<rparr>)) =
     Some [CancelCall,
           SpeakCall \<lparr>utterance_text = Some ''Toast'', utterance_lang = ''en-US''\<rparr>] \<and>
   speechCalls (handleNextStep (started\<lparr>recipeSteps := [''Whisk'']\<rparr>)) = [] \<and>
   speechCalls (handlePrevStep (started\<lparr>recipeSteps := [''Whisk'']\<rparr>)) = []"
proof -
  let ?s = "started\<lparr>recipeSteps := [''Crack eggs'', ''Whisk'', ''Cook''],
              currentStepIndex := 1\<rparr>"
  let ?t = "started\<lparr>recipeSteps := [''Whisk'']\<rparr>"
  let ?v = "JObject [(''steps'', JArray [JString ''Toast'', JString ''Butter''])]"
  have sp: "speechSynthesis_in_window ?s" and inv: "index_inv ?s"
    by (simp_all add: started_def initialize_def page_def showView_eq index_inv_def)
  have st: "steps_of ?v = Some (JArray (map JString (''Toast'' # [''Butter''])))"
    by (simp add: own_property_def)
  have s_facts: "currentStepIndex ?s < int (length (recipeSteps ?s)) - 1" "0 < currentStepIndex ?s"
    "recipeSteps ?s \<noteq> []" "speechCalls ?s = []"
    by (simp_all add: started_def initialize_def page_def showView_eq)
  have t_facts: "currentStepIndex ?t = int (length (recipeSteps ?t)) - 1" "currentStepIndex ?t = 0"
    "speechCalls ?t = []"
    by (simp_all add: started_def initialize_def page_def showView_eq)
  from transitions_read_aloud [OF sp inv, of ?v "''Toast''" "[''Butter'']" ?t]
    st s_facts t_facts
  have "read_aloud ?s (handleNextStep ?s)" "currentStepIndex (handleNextStep ?s) = 2"
    "recipeSteps (handleNextStep ?s) = recipeSteps ?s"
    "read_aloud ?s (handlePrevStep ?s)" "currentStepIndex (handlePrevStep ?s) = 0"
    "recipeSteps (handlePrevStep ?s) = recipeSteps ?s"
    "read_aloud ?s (handleRepeatStep ?s)" "currentStepIndex (handleRepeatStep ?s) = 1"
    "recipeSteps (handleRepeatStep ?s) = recipeSteps ?s"
    "\<exists>s'. getRecipe_resume (Parsed ?v) ?s = Some s' \<and> read_aloud ?s s' \<and>
        currentStepIndex s' = 0 \<and> recipeSteps s' = [''Toast'', ''Butter'']"
    "speechCalls (handleNextStep ?t) = []" "speechCalls (handlePrevStep ?t) = []"
    by simp_all
  then show ?thesis
    using sp inv st s_facts(4) by (auto simp: read_aloud_def Let_def)
qed

section \<open>Starting over\<close>

text \<open>Where the browser has speech synthesis, start over does what the specification says.\<close>

lemma handleStartOver_with_speech:
  assumes "speechSynthesis_in_window s"
  shows "fst (handleStartOver s) = None"
    and "visible_views (snd (handleStartOver s)) = [Input]"
    and "recipeSteps (snd (handleStartOver s)) = []"
    and "currentStepIndex (snd (handleStartOver s)) = 0"
    and "dishInput_value (snd (handleStartOver s)) = []"
    and "speechQueue (snd (handleStartOver s)) = []"
  using assms by (simp_all add: handleStartOver_def Let_def showView_eq visible_views_def)

lemma handleStartOver_without_speech:
  assumes "\<not> speechSynthesis_in_window s"
  shows "handleStartOver s =
     (Some (ErrorObject ''speechSynthesis is not defined''),
      s\<lparr>recipeSteps := [], currentStepIndex := 0, dishInput_value := []\<rparr>)"
  using assms by (simp add: handleStartOver_def Let_def)

text \<open>
  Claim C8 on the code, in a browser without speech synthesis: after a load of two steps, a
  click on start over throws at line 187, before line 188 is reached, and the recipe view
  stays the visible view, still showing the first step.
\<close>

theorem start_over_without_speech_stays_on_recipe:
  "map_option visible_views
     (run [Complete (Parsed (JObject [(''steps'', JArray [JString ''Crack eggs'', JString ''Whisk''])])),
           StartOverClick]
        (started\<lparr>speechSynthesis_in_window := False\<rparr>)) = Some [Recipe] \<and>
   map_option (fst \<circ> handleStartOver)
     (run [Complete (Parsed (JObject [(''steps'', JArray [JString ''Crack eggs'', JString ''Whisk''])]))]
        (started\<lparr>speechSynthesis_in_window := False\<rparr>)) =
     Some (Some (ErrorObject ''speechSynthesis is not defined'')) \<and>
   map_option recipeStepText_textContent
     (run [Complete (Parsed (JObject [(''steps'', JArray [JString ''Crack eggs'', JString ''Whisk''])])),
           StartOverClick]
        (started\<lparr>speechSynthesis_in_window := False\<rparr>)) = Some (Some ''Crack eggs'')"
proof -
  let ?s0 = "started\<lparr>speechSynthesis_in_window := False\<rparr>"
  let ?steps = "[''Crack eggs'', ''Whisk'']"
  let ?s1 = "showView Recipe (updateRecipeStepUI (?s0\<lparr>recipeSteps := ?steps, currentStepIndex := 0\<rparr>))"
  have g: "guard (JObject [(''steps'', JArray [JString ''Crack eggs'', JString ''Whisk''])]) =
             Accepted ?steps"
    by (simp add: guard_def own_property_def)
  have r: "getRecipe_resume
             (Parsed (JObject [(''steps'', JArray [JString ''Crack eggs'', JString ''Whisk''])])) ?s0 =
           Some ?s1"
    by (rule getRecipe_resume_Accepted [OF g])
  have ns: "\<not> speechSynthesis_in_window ?s1"
    by (simp add: showView_eq updateRecipeStepUI_frame)
  have v: "visible_views (?s1\<lparr>recipeSteps := [], currentStepIndex := 0, dishInput_value := []\<rparr>) = [Recipe]"
    by (simp add: visible_views_def showView_eq)
  have t: "recipeStepText_textContent ?s1 = Some ''Crack eggs''"
    by (simp add: showView_eq updateRecipeStepUI_eq speak_eq js_index_def)
  show ?thesis
    by (simp add: r handleStartOver_without_speech [OF ns] v t)
qed

section \<open>Repeating a step\<close>

text \<open>
  Whenever steps are loaded, the step display agrees with the step index: this holds after
  every run from a state in which it holds, the state \<open>started\<close> among them.
\<close>

lemma updateRecipeStepUI_synced:
  "recipeSteps (updateRecipeStepUI s) = [] \<or> display_synced (updateRecipeStepUI s)"
  by (simp add: updateRecipeStepUI_eq speak_eq display_synced_def)

lemma fire_display_synced:
  assumes "recipeSteps s = [] \<or> display_synced s" and "fire e s = Some s'"
  shows "recipeSteps s' = [] \<or> display_synced s'"
proof (cases e)
  case Submit
  have "recipeSteps (handleFormSubmit s) = recipeSteps s"
    "display_synced (handleFormSubmit s) = display_synced s"
    by (simp_all add: handleFormSubmit_def getRecipe_start_def Let_def showView_eq display_synced_def)
  with Submit assms show ?thesis by auto
next
  case (Complete c)
  have k: "recipeSteps (catch_block x s) = recipeSteps s"
    "display_synced (catch_block x s) = display_synced s" for x
    by (simp_all add: catch_block_eq showView_eq display_synced_def)
  have u: "recipeSteps (showView Recipe t) = recipeSteps t"
    "display_synced (showView Recipe t) = display_synced t" for t
    by (simp_all add: showView_eq display_synced_def)
  from Complete assms(2) have r: "getRecipe_resume c s = Some s'" by simp
  show ?thesis
  proof (cases c)
    case (Throws x)
    with r have "s' = catch_block x s" by (simp add: getRecipe_resume_def)
    with assms(1) show ?thesis by (simp add: k)
  next
    case (Parsed v)
    show ?thesis
    proof (cases "guard v")
      case (Accepted steps)
      let ?t = "s\<lparr>recipeSteps := steps, currentStepIndex := 0\<rparr>"
      from r Parsed Accepted have "s' = showView Recipe (updateRecipeStepUI ?t)"
        by (simp add: getRecipe_resume_def)
      with updateRecipeStepUI_synced [of ?t] show ?thesis by (simp add: u)
    next
      case Refused
      with r Parsed
      have "s' = catch_block (ErrorObject ''Could not find a recipe for that dish.'') s"
        by (simp add: getRecipe_resume_def)
      with assms(1) show ?thesis by (simp add: k)
    next
      case Unmodelled
      with r Parsed show ?thesis by (simp add: getRecipe_resume_def)
    qed
  qed
next
  case NextClick
  with assms(2) have "s' = handleNextStep s" by simp
  then show ?thesis
    using assms(1)
      updateRecipeStepUI_synced [of "s\<lparr>currentStepIndex := currentStepIndex s + 1\<rparr>"]
    by (auto simp: handleNextStep_def split: if_splits)
next
  case PrevClick
  with assms(2) have "s' = handlePrevStep s" by simp
  then show ?thesis
    using assms(1)
      updateRecipeStepUI_synced [of "s\<lparr>currentStepIndex := currentStepIndex s - 1\<rparr>"]
    by (auto simp: handlePrevStep_def split: if_splits)
next
  case RepeatClick
  with assms(2) have "s' = updateRecipeStepUI s" by (simp add: handleRepeatStep_def)
  then show ?thesis
    using updateRecipeStepUI_synced [of s] by simp
next
  case StartOverClick
  have "recipeSteps (snd (handleStartOver s)) = []"
    by (simp add: handleStartOver_def Let_def showView_eq)
  with StartOverClick assms show ?thesis by auto
next
  case TryAgainClick
  have "recipeSteps (backButton_onclick s) = recipeSteps s"
    "display_synced (backButton_onclick s) = display_synced s"
    by (simp_all add: backButton_onclick_def showView_eq display_synced_def)
  with TryAgainClick assms show ?thesis by (auto split: if_splits)
qed

lemma run_display_synced:
  "recipeSteps s = [] \<or> display_synced s \<Longrightarrow> run es s = Some s' \<Longrightarrow>
   recipeSteps s' = [] \<or> display_synced s'"
proof (induction es arbitrary: s)
  case Nil
  then show ?case by simp
next
  case (Cons e es)
  from Cons.prems(2) obtain s1 where f: "fire e s = Some s1" and r: "run es s1 = Some s'"
    by (auto split: option.splits)
  from fire_display_synced [OF Cons.prems(1) f] have "recipeSteps s1 = [] \<or> display_synced s1" .
  then show ?case using r by (rule Cons.IH)
qed

lemma run_started_display_synced:
  "run es started = Some s' \<Longrightarrow> recipeSteps s' = [] \<or> display_synced s'"
  by (rule run_display_synced [of started]) (simp add: started_def initialize_def page_def showView_eq)

text \<open>
  Claim C9, as stated, fails on what repeat emits in a browser without speech synthesis:
  with two steps loaded there, repeat makes no call on the speech facility and reads
  nothing aloud; its effect is a second warning on the console.
\<close>

theorem repeat_without_speech_only_warns:
  "map_option speechCalls
     (run [Complete (Parsed (JObject [(''steps'', JArray [JString ''Crack eggs'', JString ''Whisk''])])),
           RepeatClick]
        (started\<lparr>speechSynthesis_in_window := False\<rparr>)) = Some [] \<and>
   map_option speechQueue
     (run [Complete (Parsed (JObject [(''steps'', JArray [JString ''Crack eggs'', JString ''Whisk''])])),
           RepeatClick]
        (started\<lparr>speechSynthesis_in_window := False\<rparr>)) = Some [] \<and>
   map_option console
     (run [Complete (Parsed (JObject [(''steps'', JArray [JString ''Crack eggs'', JString ''Whisk''])]))]
        (started\<lparr>speechSynthesis_in_window := False\<rparr>)) =
     Some [Warn ''Speech Synthesis not supported in this browser.''] \<and>
   map_option console
     (run [Complete (Parsed (JObject [(''steps'', JArray [JString ''Crack eggs'', JString ''Whisk''])])),
           RepeatClick]
        (started\<lparr>speechSynthesis_in_window := False\<rparr>)) =
     Some [Warn ''Speech Synthesis not supported in this browser.'',
           Warn ''Speech Synthesis not supported in this browser.'']"
proof -
  let ?s0 = "started\<lparr>speechSynthesis_in_window := False\<rparr>"
  let ?steps = "[''Crack eggs'', ''Whisk'']"
  let ?s1 = "showView Recipe (updateRecipeStepUI (?s0\<lparr>recipeSteps := ?steps, currentStepIndex := 0\<rparr>))"
  have g: "guard (JObject [(''steps'', JArray [JString ''Crack eggs'', JString ''Whisk''])]) =
             Accepted ?steps"
    by (simp add: guard_def own_property_def)
  have r: "getRecipe_resume
             (Parsed (JObject [(''steps'', JArray [JString ''Crack eggs'', JString ''Whisk''])])) ?s0 =
           Some ?s1"
    by (rule getRecipe_resume_Accepted [OF g])
  have a: "speechCalls ?s1 = []" "speechQueue ?s1 = []"
    "console ?s1 = [Warn ''Speech Synthesis not supported in this browser.'']"
    "speechCalls (handleRepeatStep ?s1) = []" "speechQueue (handleRepeatStep ?s1) = []"
    "console (handleRepeatStep ?s1) =
       [Warn ''Speech Synthesis not supported in this browser.'',
        Warn ''Speech Synthesis not supported in this browser.'']"
    by (simp_all add: handleRepeatStep_def showView_eq updateRecipeStepUI_eq speak_eq
          started_def initialize_def page_def)
  show ?thesis
    by (simp add: r a)
qed

text \<open>
  Claim C9, amended. In every state, repeat leaves the step index and the loaded steps as
  they were, and every other part of the state except the step display, the speech
  facility and the console. In every state in which no steps are loaded or the display
  agrees with the index, as in every state the handlers reach, repeat does nothing when no
  steps are loaded and otherwise does what \<open>speak\<close> does with the current step and
  nothing else: one cancel and one speak of that step where the browser has speech
  synthesis, a warning on the console where it has not.
\<close>

theorem repeat_keeps_index:
  assumes "recipeSteps s = [] \<or> display_synced s"
  shows "handleRepeatStep s =
           (if recipeSteps s = [] then s
            else speak (js_index (recipeSteps s) (currentStepIndex s)) s) \<and>
         handleRepeatStep s =
           (if recipeSteps s = [] then s
            else if speechSynthesis_in_window s then
              s\<lparr>speechQueue :=
                  [\<lparr>utterance_text = js_index (recipeSteps s) (currentStepIndex s),
                    utterance_lang = ''en-US''\<rparr>],
                speechCalls := speechCalls s @
                  [CancelCall,
                   SpeakCall \<lparr>utterance_text = js_index (recipeSteps s) (currentStepIndex s),
                              utterance_lang = ''en-US''\<rparr>]\<rparr>
            else s\<lparr>console := console s @
                   [Warn ''Speech Synthesis not supported in this browser.'']\<rparr>) \<and>
         currentStepIndex (handleRepeatStep t) = currentStepIndex t \<and>
         recipeSteps (handleRepeatStep t) = recipeSteps t \<and>
         handleRepeatStep t =
           t\<lparr>recipeStepText_textContent := recipeStepText_textContent (handleRepeatStep t),
             prevStepBtn_disabled := prevStepBtn_disabled (handleRepeatStep t),
             nextStepBtn_disabled := nextStepBtn_disabled (handleRepeatStep t),
             speechQueue := speechQueue (handleRepeatStep t),
             speechCalls := speechCalls (handleRepeatStep t),
             console := console (handleRepeatStep t)\<rparr>"
proof -
  have same: "s\<lparr>recipeStepText_textContent := js_index (recipeSteps s) (currentStepIndex s),
                prevStepBtn_disabled := (currentStepIndex s = 0),
                nextStepBtn_disabled := (currentStepIndex s = int (length (recipeSteps s)) - 1)\<rparr> = s"
    if "display_synced s"
    using that by (simp add: display_synced_def)
  have one: "handleRepeatStep s =
           (if recipeSteps s = [] then s
            else speak (js_index (recipeSteps s) (currentStepIndex s)) s)"
    using assms same by (auto simp: handleRepeatStep_def updateRecipeStepUI_eq)
  then have two: "handleRepeatStep s =
           (if recipeSteps s = [] then s
            else if speechSynthesis_in_window s then
              s\<lparr>speechQueue :=
                  [\<lparr>utterance_text = js_index (recipeSteps s) (currentStepIndex s),
                    utterance_lang = ''en-US''\<rparr>],
                speechCalls := speechCalls s @
                  [CancelCall,
                   SpeakCall \<lparr>utterance_text = js_index (recipeSteps s) (currentStepIndex s),
                              utterance_lang = ''en-US''\<rparr>]\<rparr>
            else s\<lparr>console := console s @
                   [Warn ''Speech Synthesis not supported in this browser.'']\<rparr>)"
    by (simp add: speak_eq)
  have "currentStepIndex (handleRepeatStep t) = currentStepIndex t"
    "recipeSteps (handleRepeatStep t) = recipeSteps t"
    by (simp_all add: handleRepeatStep_def updateRecipeStepUI_frame)
  moreover have "handleRepeatStep t =
     t\<lparr>recipeStepText_textContent := recipeStepText_textContent (handleRepeatStep t),
       prevStepBtn_disabled := prevStepBtn_disabled (handleRepeatStep t),
       nextStepBtn_disabled := nextStepBtn_disabled (handleRepeatStep t),
       speechQueue := speechQueue (handleRepeatStep t),
       speechCalls := speechCalls (handleRepeatStep t),
       console := console (handleRepeatStep t)\<rparr>"
    by (simp add: handleRepeatStep_def updateRecipeStepUI_eq speak_eq)
  ultimately show ?thesis using one two by blast
qed

theorem repeat_keeps_index_witness:
  "display_synced
     (started\<lparr>recipeSteps := [''Crack eggs'', ''Whisk''], currentStepIndex := 1,
              recipeStepText_textContent := Some ''Whisk'', nextStepBtn_disabled := True\<rparr>) \<and>
   display_synced
     (started\<lparr>recipeSteps := [''Crack eggs'', ''Whisk''], currentStepIndex := 1,
              recipeStepText_textContent := Some ''Whisk'', nextStepBtn_disabled := True,
              speechSynthesis_in_window := False\<rparr>) \<and>
   recipeSteps started = [] \<and>
   handleRepeatStep
     (started\<lparr>recipeSteps := [''Crack eggs'', ''Whisk''], currentStepIndex := 1,
              recipeStepText_textContent := Some ''Whisk'', nextStepBtn_disabled := True\<rparr>) =
     started\<lparr>recipeSteps := [''Crack eggs'', ''Whisk''], currentStepIndex := 1,
             recipeStepText_textContent := Some ''Whisk'', nextStepBtn_disabled := True,
             speechQueue := [\<lparr>utterance_text = Some ''Whisk'', utterance_lang = ''en-US''\<rparr>],
             speechCalls :=
               [CancelCall,
                SpeakCall \<lparr>utterance_text = Some ''Whisk'', utterance_lang = ''en-US''\<rparr>]\<rparr> \<and>
   handleRepeatStep
     (started\<lparr>recipeSteps := [''Crack eggs'', ''Whisk''], currentStepIndex := 1,
              recipeStepText_textContent := Some ''Whisk'', nextStepBtn_disabled := True,
              speechSynthesis_in_window := False\<rparr>) =
     started\<lparr>recipeSteps := [''Crack eggs'', ''Whisk''], currentStepIndex := 1,
             recipeStepText_textContent := Some ''Whisk'', nextStepBtn_disabled := True,
             speechSynthesis_in_window := False,
             console := [Warn ''Speech Synthesis not supported in this browser.'']\<rparr> \<and>
   handleRepeatStep started = started"
proof -
  let ?s = "started\<lparr>recipeSteps := [''Crack eggs'', ''Whisk''], currentStepIndex := 1,
              recipeStepText_textContent := Some ''Whisk'', nextStepBtn_disabled := True\<rparr>"
  let ?n = "started\<lparr>recipeSteps := [''Crack eggs'', ''Whisk''], currentStepIndex := 1,
              recipeStepText_textContent := Some ''Whisk'', nextStepBtn_disabled := True,
              speechSynthesis_in_window := False\<rparr>"
  have d: "display_synced ?s" "display_synced ?n" and e: "recipeSteps started = []"
    by (simp_all add: display_synced_def js_index_def started_def initialize_def page_def showView_eq)
  have f: "recipeSteps ?s \<noteq> []" "speechSynthesis_in_window ?s" "speechCalls ?s = []"
    "recipeSteps ?n \<noteq> []" "\<not> speechSynthesis_in_window ?n" "console ?n = []"
    by (simp_all add: started_def initialize_def page_def showView_eq)
  have j: "js_index [''Crack eggs'', ''Whisk''] 1 = Some ''Whisk''"
    by (simp add: js_index_def)
  let ?spoken = "?s\<lparr>speechQueue :=
            [\<lparr>utterance_text = js_index (recipeSteps ?s) (currentStepIndex ?s),
              utterance_lang = ''en-US''\<rparr>],
          speechCalls := speechCalls ?s @
            [CancelCall,
             SpeakCall \<lparr>utterance_text = js_index (recipeSteps ?s) (currentStepIndex ?s),
                        utterance_lang = ''en-US''\<rparr>]\<rparr>"
  let ?warned = "?n\<lparr>console := console ?n @
                   [Warn ''Speech Synthesis not supported in this browser.'']\<rparr>"
  from repeat_keeps_index [OF disjI2 [OF d(1)], of ?s]
  have "handleRepeatStep ?s =
      (if recipeSteps ?s = [] then ?s
       else if speechSynthesis_in_window ?s then ?spoken
       else ?s\<lparr>console := console ?s @
              [Warn ''Speech Synthesis not supported in this browser.'']\<rparr>)"
    by blast
  with f(1,2) have a: "handleRepeatStep ?s = ?spoken"
    by (simp only: if_False if_True)
  from repeat_keeps_index [OF disjI2 [OF d(2)], of ?n]
  have "handleRepeatStep ?n =
      (if recipeSteps ?n = [] then ?n
       else if speechSynthesis_in_window ?n then
         ?n\<lparr>speechQueue :=
            [\<lparr>utterance_text = js_index (recipeSteps ?n) (currentStepIndex ?n),
              utterance_lang = ''en-US''\<rparr>],
          speechCalls := speechCalls ?n @
            [CancelCall,
             SpeakCall \<lparr>utterance_text = js_index (recipeSteps ?n) (currentStepIndex ?n),
                        utterance_lang = ''en-US''\<rparr>]\<rparr>
       else ?warned)"
    by blast
  with f(4,5) have b: "handleRepeatStep ?n = ?warned"
    by (simp only: if_False if_True)
  from repeat_keeps_index [OF disjI1 [OF e], of started]
  have "handleRepeatStep started = (if recipeSteps started = [] then started
      else speak (js_index (recipeSteps started) (currentStepIndex started)) started)"
    by blast
  with e have c: "handleRepeatStep started = started"
    by simp
  have "?spoken =
     started\<lparr>recipeSteps := [''Crack eggs'', ''Whisk''], currentStepIndex := 1,
             recipeStepText_textContent := Some ''Whisk'', nextStepBtn_disabled := True,
             speechQueue := [\<lparr>utterance_text = Some ''Whisk'', utterance_lang = ''en-US''\<rparr>],
             speechCalls :=
               [CancelCall,
                SpeakCall \<lparr>utterance_text = Some ''Whisk'', utterance_lang = ''en-US''\<rparr>]\<rparr>"
    by (simp add: f(3) j)
  moreover have "?warned =
     started\<lparr>recipeSteps := [''Crack eggs'', ''Whisk''], currentStepIndex := 1,
             recipeStepText_textContent := Some ''Whisk'', nextStepBtn_disabled := True,
             speechSynthesis_in_window := False,
             console := [Warn ''Speech Synthesis not supported in this browser.'']\<rparr>"
    by (simp add: f(6))
  ultimately show ?thesis
    using a b c d e by (simp only: simp_thms)
qed

section \<open>Blank submissions\<close>

lemma trim_Nil_iff: "trim s = [] \<longleftrightarrow> (\<forall>c \<in> set s. is_white_space c)"
proof
  assume "trim s = []"
  then have "dropWhile is_white_space (rev (dropWhile is_white_space s)) = []"
    by (simp add: trim_def)
  then have "\<forall>c \<in> set (dropWhile is_white_space s). is_white_space c"
    by simp
  then have "dropWhile is_white_space s = []"
    using hd_dropWhile [of is_white_space s] hd_in_set [of "dropWhile is_white_space s"] by blast
  then show "\<forall>c \<in> set s. is_white_space c"
    by simp
next
  assume "\<forall>c \<in> set s. is_white_space c"
  then have "dropWhile is_white_space s = []"
    by simp
  then have "trim s = rev (dropWhile is_white_space (rev []))"
    unfolding trim_def by (rule arg_cong)
  then show "trim s = []" by simp
qed

text \<open>
  Claim C10. When the dish field is empty or holds only white space, so that its trimmed
  value is empty, the submit handler returns the state it was given: no request is sent,
  and the visible view, the steps and the index are the ones before the submission.
\<close>

theorem blank_submission_ignored:
  assumes "\<forall>c \<in> set (dishInput_value s). is_white_space c"
  shows "trim (dishInput_value s) = [] \<and>
         handleFormSubmit s = s \<and>
         requests (handleFormSubmit s) = requests s \<and>
         visible_views (handleFormSubmit s) = visible_views s \<and>
         recipeSteps (handleFormSubmit s) = recipeSteps s \<and>
         currentStepIndex (handleFormSubmit s) = currentStepIndex s"
proof -
  have "trim (dishInput_value s) = []"
    using assms by (simp add: trim_Nil_iff)
  then show ?thesis
    by (simp add: handleFormSubmit_def)
qed

theorem blank_submission_ignored_witness:
  "list_all is_white_space
     (dishInput_value (started\<lparr>dishInput_value := [CHR '' '', CHR 0x09, CHR '' '']\<rparr>)) \<and>
   trim [CHR '' '', CHR 0x09, CHR '' ''] = [] \<and>
   handleFormSubmit (started\<lparr>dishInput_value := [CHR '' '', CHR 0x09, CHR '' '']\<rparr>) =
     started\<lparr>dishInput_value := [CHR '' '', CHR 0x09, CHR '' '']\<rparr> \<and>
   requests (handleFormSubmit (started\<lparr>dishInput_value := [CHR '' '', CHR 0x09, CHR '' '']\<rparr>)) = [] \<and>
   handleFormSubmit started = started"
proof -
  let ?s = "started\<lparr>dishInput_value := [CHR '' '', CHR 0x09, CHR '' '']\<rparr>"
  have h: "\<forall>c \<in> set (dishInput_value ?s). is_white_space c"
    by (simp add: is_white_space_def)
  have e: "\<forall>c \<in> set (dishInput_value started). is_white_space c"
    by (simp add: started_def initialize_def page_def showView_eq)
  have r: "requests ?s = []"
    by (simp add: started_def initialize_def page_def showView_eq)
  have l: "list_all is_white_space (dishInput_value ?s)"
    by (simp add: is_white_space_def)
  show ?thesis
    using blank_submission_ignored [OF h] blank_submission_ignored [OF e] l r by simp
qed

end
